theory Spec2Isabelle
  imports Complex_Main "HOL-Library.Sublist"
begin

section \<open>Data model\<close>

text \<open>
  The dashboard keeps one table, the module-level \<^verbatim>\<open>df\<close> of \<^verbatim>\<open>app.py\<close>, and one
  callback, \<^verbatim>\<open>update_dashboard\<close>, that derives four figures from it.  A row of the
  table carries the columns the callback reads.  Timestamps are instants counted in
  nanoseconds, as pandas stores them; the two date inputs of the callback are the
  instants pandas parses them to.  The distance and the coordinates are compared, never
  computed with, so they are modelled as reals.
\<close>

record trip =
  tpep_pickup_datetime :: int
  hour :: int
  passenger_count :: int
  trip_distance :: real
  lat :: real
  lon :: real
  cluster :: int

text \<open>
  A data frame is its rows together with the column \<^verbatim>\<open>period\<close>, which does not exist
  until the callback assigns it (line 173).
\<close>

record frame =
  rows :: "trip list"
  period_col :: "string list option"

text \<open>
  Data frames are objects: \<^verbatim>\<open>df.copy()\<close> and \<^verbatim>\<open>dff[mask]\<close> create new ones, and
  \<^verbatim>\<open>dff['period'] = ...\<close> writes into the object \<^verbatim>\<open>dff\<close> refers to.  The store maps
  addresses to frames; \<open>next_free\<close> is the first address never allocated; \<open>df\<close> is
  the address the global variable \<^verbatim>\<open>df\<close> is bound to.
\<close>

record state =
  df :: nat
  heap :: "nat \<Rightarrow> frame"
  next_free :: nat

datatype error = KeyError string | IndexError

text \<open>
  The figures, as the data they are built from.  The rows of the bar chart come from a sort
  on their counts that does not say in which order it leaves rows of equal count, so the
  chart is the list of its groups of rows of equal count: the values of the group and
  their common count.
\<close>

record figures =
  map_fig :: "(real \<times> real \<times> int) list"
  time_fig :: "(int \<times> nat) list"
  dist_fig :: "real list \<times> nat"
  pass_fig :: "(int set \<times> nat) list"

section \<open>Data frame operations\<close>

definition alloc :: "frame \<Rightarrow> state \<Rightarrow> nat \<times> state" where
  "alloc f st =
     (next_free st,
      st\<lparr>heap := (heap st)(next_free st := f), next_free := Suc (next_free st)\<rparr>)"

text \<open>\<^verbatim>\<open>x.copy()\<close>: a new object with the contents of the old one.\<close>

definition copy :: "nat \<Rightarrow> state \<Rightarrow> nat \<times> state" where
  "copy a st = alloc (heap st a) st"

text \<open>Selection by a boolean mask keeps the entries whose mask bit is set, in order.\<close>

definition select :: "bool list \<Rightarrow> 'a list \<Rightarrow> 'a list" where
  "select msk xs = map snd (filter fst (zip msk xs))"

text \<open>\<^verbatim>\<open>x[mask]\<close>: a new frame holding the selected rows, every column included.\<close>

definition getitem_mask :: "nat \<Rightarrow> bool list \<Rightarrow> state \<Rightarrow> nat \<times> state" where
  "getitem_mask a msk st =
     alloc \<lparr>rows = select msk (rows (heap st a)),
            period_col = map_option (select msk) (period_col (heap st a))\<rparr> st"

text \<open>\<^verbatim>\<open>x['period'] = col\<close>: writes the column into the object at \<open>a\<close>.\<close>

definition setitem_period :: "nat \<Rightarrow> string list \<Rightarrow> state \<Rightarrow> state" where
  "setitem_period a col st =
     st\<lparr>heap := (heap st)(a := (heap st a)\<lparr>period_col := Some col\<rparr>)\<rparr>"

text \<open>\<^verbatim>\<open>x['period']\<close>: the column, or \<^verbatim>\<open>KeyError\<close> when the frame has none.\<close>

definition getitem_period :: "nat \<Rightarrow> state \<Rightarrow> error + string list" where
  "getitem_period a st =
     (case period_col (heap st a) of
        None \<Rightarrow> Inl (KeyError ''period'')
      | Some col \<Rightarrow> Inr col)"

text \<open>\<^verbatim>\<open>xs[i]\<close> on a Python list, for the indices \<^verbatim>\<open>0\<close> and \<^verbatim>\<open>1\<close> the callback uses.\<close>

definition getitem_list :: "'a list \<Rightarrow> nat \<Rightarrow> error + 'a" where
  "getitem_list xs i = (if i < length xs then Inr (xs ! i) else Inl IndexError)"

section \<open>The callback\<close>

text \<open>The local function \<^verbatim>\<open>period\<close> (lines 167 to 171).\<close>

definition period :: "int \<Rightarrow> string" where
  "period h =
     (if 6 \<le> h \<and> h < 12 then ''morning''
      else if 12 \<le> h \<and> h < 18 then ''afternoon''
      else if 18 \<le> h \<and> h < 24 then ''evening''
      else ''night'')"

text \<open>
  Lines 158 to 174 of \<^verbatim>\<open>update_dashboard\<close>: the copy, the three mask selections, the
  new column and the selection on it.  The result is the address \<^verbatim>\<open>dff\<close> is bound to
  at line 174, or the exception raised, and the store at that point.
\<close>

definition filter_pass ::
  "state \<Rightarrow> int \<Rightarrow> int \<Rightarrow> int \<Rightarrow> real list \<Rightarrow> string list \<Rightarrow> (error + nat) \<times> state" where
  "filter_pass st start_date end_date passengers distance tod =
     (let (dff, st) = copy (df st) st;
          (dff, st) = getitem_mask dff
             (map (\<lambda>r. start_date \<le> tpep_pickup_datetime r \<and> tpep_pickup_datetime r \<le> end_date)
                (rows (heap st dff))) st;
          (dff, st) = getitem_mask dff
             (map (\<lambda>r. passengers \<le> passenger_count r) (rows (heap st dff))) st
      in case getitem_list distance 0 of
           Inl e \<Rightarrow> (Inl e, st)
         | Inr lo \<Rightarrow>
        (case getitem_list distance 1 of
           Inl e \<Rightarrow> (Inl e, st)
         | Inr hi \<Rightarrow>
        (let (dff, st) = getitem_mask dff
               (map (\<lambda>r. lo \<le> trip_distance r \<and> trip_distance r \<le> hi) (rows (heap st dff))) st;
             st = setitem_period dff (map period (map hour (rows (heap st dff)))) st
         in case getitem_period dff st of
              Inl e \<Rightarrow> (Inl e, st)
            | Inr col \<Rightarrow>
                (let (dff, st) = getitem_mask dff (map (\<lambda>p. p \<in> set tod) col) st
                 in (Inr dff, st)))))"

text \<open>
  \<^verbatim>\<open>groupby('hour').size().reset_index(name='Trips')\<close>: one row per hour present, in
  ascending order of the hour, with the number of rows of that hour.
\<close>

definition groupby_size :: "int list \<Rightarrow> (int \<times> nat) list" where
  "groupby_size hs = map (\<lambda>k. (k, count_list hs k)) (sort (remdups hs))"

text \<open>
  \<^verbatim>\<open>value_counts().reset_index()\<close>: one row per value present with its number of
  occurrences, the larger counts first.  The order of the rows among equal counts is left
  to the sort routine, which is not a stable one; the rows of equal count are therefore
  kept together as one group, the set of their values and the count they share.
\<close>

definition value_counts :: "int list \<Rightarrow> (int set \<times> nat) list" where
  "value_counts xs =
     map (\<lambda>c. (Set.filter (\<lambda>k. count_list xs k = c) (set xs), c))
       (rev (sort (remdups (map (count_list xs) xs))))"

text \<open>
  The whole callback: the filter (lines 158 to 174), then the four figures built from the
  frame \<^verbatim>\<open>dff\<close> (lines 177 to 200).  The map shows one point per row, coloured by its
  cluster; the histogram receives the distances and the number of bins.
\<close>

definition update_dashboard ::
  "state \<Rightarrow> int \<Rightarrow> int \<Rightarrow> int \<Rightarrow> real list \<Rightarrow> string list \<Rightarrow> (error + figures) \<times> state" where
  "update_dashboard st start_date end_date passengers distance tod =
     (case filter_pass st start_date end_date passengers distance tod of
        (Inl e, st) \<Rightarrow> (Inl e, st)
      | (Inr dff, st) \<Rightarrow>
          (let rs = rows (heap st dff)
           in (Inr \<lparr>map_fig = map (\<lambda>r. (lat r, lon r, cluster r)) rs,
                    time_fig = groupby_size (map hour rs),
                    dist_fig = (map trip_distance rs, 30),
                    pass_fig = value_counts (map passenger_count rs)\<rparr>, st)))"

section \<open>Start-up and interactions\<close>

text \<open>
  After lines 16 to 38 the global \<^verbatim>\<open>df\<close> holds the sampled, labelled table and no
  column \<^verbatim>\<open>period\<close>.
\<close>

definition startup :: "trip list \<Rightarrow> state" where
  "startup ds =
     \<lparr>df = 0, heap = (\<lambda>_. \<lparr>rows = [], period_col = None\<rparr>)(0 := \<lparr>rows = ds, period_col = None\<rparr>),
      next_free = 1\<rparr>"

text \<open>
  An interaction is one call of the callback with the five input values; its figures or
  its exception go to the browser, and the store stays as the call left it.
\<close>

type_synonym inputs = "int \<times> int \<times> int \<times> real list \<times> string list"

definition interact :: "inputs \<Rightarrow> state \<Rightarrow> state" where
  "interact i st =
     (case i of (start_date, end_date, passengers, distance, tod) \<Rightarrow>
        snd (update_dashboard st start_date end_date passengers distance tod))"

definition interactions :: "inputs list \<Rightarrow> state \<Rightarrow> state" where
  "interactions is st = fold interact is st"

text \<open>The four conditions of the filter on one row.\<close>

definition keeps :: "int \<Rightarrow> int \<Rightarrow> int \<Rightarrow> real \<Rightarrow> real \<Rightarrow> string list \<Rightarrow> trip \<Rightarrow> bool" where
  "keeps start_date end_date passengers lo hi tod r \<longleftrightarrow>
     start_date \<le> tpep_pickup_datetime r \<and> tpep_pickup_datetime r \<le> end_date \<and>
     passengers \<le> passenger_count r \<and>
     lo \<le> trip_distance r \<and> trip_distance r \<le> hi \<and>
     period (hour r) \<in> set tod"

text \<open>
  The frame \<^verbatim>\<open>dff\<close> refers to when line 174 has run: the filtered view of one pass.
\<close>

definition filtered ::
  "state \<Rightarrow> int \<Rightarrow> int \<Rightarrow> int \<Rightarrow> real list \<Rightarrow> string list \<Rightarrow> error + frame" where
  "filtered st start_date end_date passengers distance tod =
     (case filter_pass st start_date end_date passengers distance tod of
        (Inl e, st') \<Rightarrow> Inl e
      | (Inr dff, st') \<Rightarrow> Inr (heap st' dff))"

text \<open>A state is well formed when the global table lies in the allocated part of the store.\<close>

definition wf :: "state \<Rightarrow> bool" where
  "wf st \<longleftrightarrow> df st < next_free st"

text \<open>The example scenario of the specification: three trips.\<close>

definition R1 :: trip where
  "R1 = \<lparr>tpep_pickup_datetime = 100, hour = 7, passenger_count = 2, trip_distance = 1,
         lat = 40.6, lon = -74, cluster = 0\<rparr>"

definition R2 :: trip where
  "R2 = \<lparr>tpep_pickup_datetime = 200, hour = 14, passenger_count = 1, trip_distance = 5,
         lat = 40.7, lon = -74.1, cluster = -1\<rparr>"

definition R3 :: trip where
  "R3 = \<lparr>tpep_pickup_datetime = 300, hour = 20, passenger_count = 3, trip_distance = 19.5,
         lat = 40.8, lon = -73.9, cluster = 0\<rparr>"

text \<open>
  The number of trips the hourly figure shows for one time-of-day bucket: the counts of
  its rows whose hour falls in the bucket, added up.
\<close>

definition bucket_count :: "(int \<times> nat) list \<Rightarrow> string \<Rightarrow> nat" where
  "bucket_count tf b = sum_list (map snd (filter (\<lambda>(h, c). period h = b) tf))"

text \<open>The four figures of lines 177 to 200 as a function of the rows of \<^verbatim>\<open>dff\<close>.\<close>

definition figures_of :: "trip list \<Rightarrow> figures" where
  "figures_of rs =
     \<lparr>map_fig = map (\<lambda>r. (lat r, lon r, cluster r)) rs,
      time_fig = groupby_size (map hour rs),
      dist_fig = (map trip_distance rs, 30),
      pass_fig = value_counts (map passenger_count rs)\<rparr>"

definition empty_figures :: figures where
  "empty_figures = \<lparr>map_fig = [], time_fig = [], dist_fig = ([], 30), pass_fig = []\<rparr>"

section \<open>Clustering\<close>

text \<open>
  Modelled from the spec: the density-based clustering that line 37 calls,
  \<^verbatim>\<open>DBSCAN(eps=0.15, min_samples=40).fit(scaled)\<close>, is library code and not part of the
  sources.  The model follows section 4.2 of the specification.  Its input is the list of
  standardised points, its output the list of their labels.  Two points are neighbours when
  their Euclidean distance is at most \<open>eps\<close>; the comparison is made on the squares, which
  is the same for \<open>eps \<ge> 0\<close> (lemma \<open>in_radius_sqrt\<close>) and can be evaluated.
\<close>

type_synonym point = "real \<times> real"

definition dist2 :: "point \<Rightarrow> point \<Rightarrow> real" where
  "dist2 a b = (fst a - fst b)\<^sup>2 + (snd a - snd b)\<^sup>2"

definition in_radius :: "real \<Rightarrow> point \<Rightarrow> point \<Rightarrow> bool" where
  "in_radius eps a b \<longleftrightarrow> dist2 a b \<le> eps\<^sup>2"

text \<open>
  Modelled from the spec: the neighbourhood of a point is the points within \<open>eps\<close> of it,
  itself included; a core point has at least \<open>min_samples\<close> of them.
\<close>

definition neighborhood :: "real \<Rightarrow> point list \<Rightarrow> nat \<Rightarrow> nat list" where
  "neighborhood eps pts i = filter (\<lambda>j. in_radius eps (pts ! i) (pts ! j)) [0..<length pts]"

definition is_core :: "real \<Rightarrow> nat \<Rightarrow> point list \<Rightarrow> nat \<Rightarrow> bool" where
  "is_core eps min_samples pts i \<longleftrightarrow> min_samples \<le> length (neighborhood eps pts i)"

text \<open>
  Modelled from the spec: a cluster is grown from a core point that has no label yet.  The
  points to visit are kept on a stack; a visited point without a label receives the label of
  the cluster and, if it is a core point, hands on its neighbours without a label.  A point
  that is not a core point is absorbed and hands on nothing.  Discovery order decides which
  cluster absorbs a point in reach of two.
\<close>

function expand :: "(nat \<Rightarrow> nat list) \<Rightarrow> (nat \<Rightarrow> bool) \<Rightarrow> nat \<Rightarrow> nat list \<Rightarrow> int list \<Rightarrow> int list" where
  "expand nbrs core c [] labels = labels"
| "expand nbrs core c (i # stack) labels =
     (if i < length labels \<and> labels ! i = -1 then
        (let labels' = labels[i := int c]
         in expand nbrs core c
              ((if core i then rev (filter (\<lambda>v. v < length labels' \<and> labels' ! v = -1) (nbrs i))
                else []) @ stack) labels')
      else expand nbrs core c stack labels)"
  by pat_completeness auto

termination expand
proof -
  have less: "count_list (labels[i := int c]) (-1) < count_list labels (-1)"
    if "i < length labels" "labels ! i = -1" for labels :: "int list" and i c
    using that
  proof (induction labels arbitrary: i)
    case Nil
    then show ?case by simp
  next
    case (Cons l ls)
    show ?case
    proof (cases i)
      case 0
      with Cons.prems show ?thesis by simp
    next
      case (Suc k)
      with Cons.prems Cons.IH [of k] show ?thesis by simp
    qed
  qed
  show ?thesis
    by (relation "measures [\<lambda>(nbrs, core, c, stack, labels). count_list labels (-1),
                            \<lambda>(nbrs, core, c, stack, labels). length stack]")
       (auto simp: less)
qed

text \<open>
  Modelled from the spec: the points are taken in order; each core point still without a
  label starts the next cluster, numbered from 0.  A point no cluster reaches keeps the
  label \<open>-1\<close>, noise.
\<close>

fun sweep :: "(nat \<Rightarrow> nat list) \<Rightarrow> (nat \<Rightarrow> bool) \<Rightarrow> nat list \<Rightarrow> nat \<Rightarrow> int list \<Rightarrow> int list" where
  "sweep nbrs core [] c labels = labels"
| "sweep nbrs core (i # rest) c labels =
     (if labels ! i \<noteq> -1 \<or> \<not> core i then sweep nbrs core rest c labels
      else sweep nbrs core rest (Suc c) (expand nbrs core c [i] labels))"

definition dbscan :: "real \<Rightarrow> nat \<Rightarrow> point list \<Rightarrow> int list" where
  "dbscan eps min_samples pts =
     sweep (neighborhood eps pts) (is_core eps min_samples pts) [0..<length pts] 0
       (replicate (length pts) (-1))"

definition cluster_labels :: "point list \<Rightarrow> int list" where
  "cluster_labels scaled = dbscan 0.15 40 scaled"

section \<open>Properties of the operations\<close>

lemma select_map: "select (map P xs) xs = filter P xs"
  by (induction xs) (auto simp: select_def)

lemma select_map2: "select (map P (map f xs)) xs = filter (\<lambda>x. P (f x)) xs"
  by (induction xs) (auto simp: select_def)

lemma select_map_map: "select (map P xs) (map f xs) = map f (filter P xs)"
  by (induction xs) (auto simp: select_def)

lemma wf_startup: "wf (startup ds)"
  by (simp add: wf_def startup_def)

lemma filter_filter_keeps:
  "filter (\<lambda>r. period (hour r) \<in> set tod)
     (filter (\<lambda>r. lo \<le> trip_distance r \<and> trip_distance r \<le> hi)
       (filter (\<lambda>r. p \<le> passenger_count r)
         (filter (\<lambda>r. s \<le> tpep_pickup_datetime r \<and> tpep_pickup_datetime r \<le> e) xs)))
   = filter (keeps s e p lo hi tod) xs"
  by (induction xs) (auto simp: keeps_def)

lemma filter_pass_result:
  assumes "wf st"
  shows "\<exists>dff st'. filter_pass st s e p [lo, hi] tod = (Inr dff, st') \<and>
           heap st' dff =
             \<lparr>rows = filter (keeps s e p lo hi tod) (rows (heap st (df st))),
              period_col = Some (map (\<lambda>r. period (hour r))
                 (filter (keeps s e p lo hi tod) (rows (heap st (df st)))))\<rparr>"
  using assms
  by (simp add: filter_pass_def copy_def alloc_def getitem_mask_def setitem_period_def
      getitem_period_def getitem_list_def Let_def wf_def select_map select_map2 select_map_map
      filter_filter_keeps [symmetric] comp_def)

lemma filter_pass_frame:
  assumes "wf st"
  shows "df (snd (filter_pass st s e p d tod)) = df st \<and>
         heap (snd (filter_pass st s e p d tod)) (df st) = heap st (df st) \<and>
         wf (snd (filter_pass st s e p d tod))"
  using assms
  by (simp add: filter_pass_def copy_def alloc_def getitem_mask_def setitem_period_def
      getitem_period_def getitem_list_def Let_def wf_def split: sum.splits)

lemma update_dashboard_frame:
  assumes "wf st"
  shows "df (snd (update_dashboard st s e p d tod)) = df st \<and>
         heap (snd (update_dashboard st s e p d tod)) (df st) = heap st (df st) \<and>
         wf (snd (update_dashboard st s e p d tod))"
proof -
  obtain r st' where fp: "filter_pass st s e p d tod = (r, st')"
    by (cases "filter_pass st s e p d tod")
  have "snd (update_dashboard st s e p d tod) = st'"
    using fp by (cases r) (simp_all add: update_dashboard_def Let_def)
  moreover have "st' = snd (filter_pass st s e p d tod)"
    using fp by simp
  ultimately show ?thesis
    using filter_pass_frame [OF assms, of s e p d tod] by simp
qed

lemma interact_frame:
  assumes "wf st"
  shows "df (interact i st) = df st \<and> heap (interact i st) (df st) = heap st (df st) \<and>
         wf (interact i st)"
  using update_dashboard_frame [OF assms]
  by (cases i) (simp add: interact_def)

lemma interactions_frame:
  assumes "wf st"
  shows "df (interactions is st) = df st \<and>
         heap (interactions is st) (df st) = heap st (df st) \<and> wf (interactions is st)"
  using assms
proof (induction "is" arbitrary: st)
  case Nil
  then show ?case by (simp add: interactions_def)
next
  case (Cons i "is")
  have step: "df (interact i st) = df st" "heap (interact i st) (df st) = heap st (df st)"
    "wf (interact i st)"
    using interact_frame [OF Cons.prems] by simp_all
  have "interactions (i # is) st = interactions is (interact i st)"
    by (simp add: interactions_def)
  then show ?case
    using Cons.IH [OF step(3)] step by simp
qed

lemma reachable_frame:
  "wf (interactions is (startup ds)) \<and>
   heap (interactions is (startup ds)) (df (interactions is (startup ds))) =
     \<lparr>rows = ds, period_col = None\<rparr>"
  using interactions_frame [OF wf_startup, of "is" ds]
  by (simp add: startup_def)

lemma filtered_reachable:
  "filtered (interactions is (startup ds)) s e p [lo, hi] tod =
     Inr \<lparr>rows = filter (keeps s e p lo hi tod) ds,
          period_col = Some (map (\<lambda>r. period (hour r)) (filter (keeps s e p lo hi tod) ds))\<rparr>"
proof -
  let ?st = "interactions is (startup ds)"
  have w: "wf ?st" and h: "heap ?st (df ?st) = \<lparr>rows = ds, period_col = None\<rparr>"
    using reachable_frame by simp_all
  from filter_pass_result [OF w, of s e p lo hi tod] h
  show ?thesis by (auto simp: filtered_def)
qed

lemma filter_subseq: "subseq (filter P xs) xs"
  by (induction xs) auto

lemma update_dashboard_filtered:
  "fst (update_dashboard st s e p d tod) =
     (case filtered st s e p d tod of Inl err \<Rightarrow> Inl err | Inr f \<Rightarrow> Inr (figures_of (rows f)))"
  by (simp add: update_dashboard_def filtered_def figures_of_def Let_def
      split: prod.splits sum.splits)

lemma update_dashboard_reachable:
  "fst (update_dashboard (interactions is (startup ds)) s e p [lo, hi] tod) =
     Inr (figures_of (filter (keeps s e p lo hi tod) ds))"
  by (simp add: update_dashboard_filtered filtered_reachable)

lemma figures_of_Nil: "figures_of [] = empty_figures"
  by (simp add: figures_of_def empty_figures_def groupby_size_def value_counts_def)

lemma filtered_depends_on_df:
  assumes "wf st" "wf st'" "heap st (df st) = heap st' (df st')"
  shows "filtered st s e p d tod = filtered st' s e p d tod"
  using assms
  by (simp add: filtered_def filter_pass_def copy_def alloc_def getitem_mask_def
      setitem_period_def getitem_period_def getitem_list_def Let_def wf_def
      split: sum.splits)

lemma count_filter: "count_list (filter Q hs) k = (if Q k then count_list hs k else 0)"
  by (induction hs) auto

lemma groupby_size_bucket:
  "sum_list (map snd (filter (\<lambda>(h, c). Q h) (groupby_size hs))) = length (filter Q hs)"
proof -
  let ?ks = "filter Q (sort (remdups hs))"
  let ?X = "{k \<in> set hs. Q k}"
  have "filter (\<lambda>(h, c). Q h) (groupby_size hs) = map (\<lambda>k. (k, count_list hs k)) ?ks"
    by (simp add: groupby_size_def filter_map comp_def)
  then have "sum_list (map snd (filter (\<lambda>(h, c). Q h) (groupby_size hs))) =
             sum_list (map (count_list hs) ?ks)"
    by (simp add: comp_def)
  also have "\<dots> = sum (count_list hs) (set ?ks)"
    by (rule sum_list_distinct_conv_sum_set) simp
  also have "set ?ks = ?X" by auto
  also have "sum (count_list hs) ?X = sum (count_list (filter Q hs)) ?X"
    by (rule sum.cong) (simp_all add: count_filter)
  also have "\<dots> = length (filter Q hs)"
    by (rule sum_count_set) auto
  finally show ?thesis .
qed

lemma period_partition:
  "length (filter (\<lambda>h. period h = ''morning'') hs) +
   length (filter (\<lambda>h. period h = ''afternoon'') hs) +
   length (filter (\<lambda>h. period h = ''evening'') hs) +
   length (filter (\<lambda>h. period h = ''night'') hs) = length hs"
  by (induction hs) (auto simp: period_def)

lemma bucket_count_total:
  "bucket_count (groupby_size hs) ''morning'' + bucket_count (groupby_size hs) ''afternoon'' +
   bucket_count (groupby_size hs) ''evening'' + bucket_count (groupby_size hs) ''night'' =
   length hs"
  unfolding bucket_count_def groupby_size_bucket by (rule period_partition)

lemma period_cases:
  "period h = ''morning'' \<or> period h = ''afternoon'' \<or> period h = ''evening'' \<or>
   period h = ''night''"
  by (simp add: period_def)

lemma in_radius_sqrt:
  assumes "0 \<le> eps"
  shows "in_radius eps a b \<longleftrightarrow> sqrt (dist2 a b) \<le> eps"
proof -
  have "sqrt (dist2 a b) \<le> sqrt (eps\<^sup>2) \<longleftrightarrow> dist2 a b \<le> eps\<^sup>2"
    by (rule real_sqrt_le_iff)
  moreover have "sqrt (eps\<^sup>2) = eps"
    using assms by simp
  ultimately show ?thesis
    by (simp add: in_radius_def)
qed

lemma sweep_no_core:
  "\<forall>i \<in> set todo. \<not> core i \<Longrightarrow> sweep nbrs core todo c labels = labels"
  by (induction todo) auto

lemma dbscan_no_core:
  assumes "\<forall>i < length pts. \<not> is_core eps min_samples pts i"
  shows "dbscan eps min_samples pts = replicate (length pts) (-1)"
  unfolding dbscan_def using assms by (intro sweep_no_core) simp

lemma neighborhood_length: "length (neighborhood eps pts i) \<le> length pts"
  unfolding neighborhood_def using length_filter_le [of _ "[0..<length pts]"] by simp

lemma few_points_no_core:
  assumes "length pts < min_samples"
  shows "\<not> is_core eps min_samples pts i"
  using assms neighborhood_length [of eps pts i] by (simp add: is_core_def)

lemma isolated_neighborhood:
  assumes "\<forall>j < length pts. j \<noteq> i \<longrightarrow> \<not> in_radius eps (pts ! i) (pts ! j)"
  shows "length (neighborhood eps pts i) \<le> 1"
proof -
  have "length (neighborhood eps pts i) =
        card ({j. in_radius eps (pts ! i) (pts ! j)} \<inter> set [0..<length pts])"
    unfolding neighborhood_def by (rule distinct_length_filter) simp
  also have "\<dots> \<le> card {i}"
    using assms by (intro card_mono) auto
  finally show ?thesis by simp
qed

lemma isolated_no_core:
  assumes "1 < min_samples"
    and "\<forall>j < length pts. j \<noteq> i \<longrightarrow> \<not> in_radius eps (pts ! i) (pts ! j)"
  shows "\<not> is_core eps min_samples pts i"
  using assms(1) isolated_neighborhood [OF assms(2)] by (simp add: is_core_def)

lemma expand_all_reached:
  assumes "\<forall>i < length labels. labels ! i = -1 \<or> labels ! i = int c"
    and "\<forall>i < length labels. labels ! i = -1 \<longrightarrow> i \<in> set stack"
  shows "expand nbrs core c stack labels = replicate (length labels) (int c)"
  using assms
proof (induction nbrs core c stack labels rule: expand.induct)
  case (1 nbrs core c labels)
  then have "\<forall>i < length labels. labels ! i = int c" by auto
  then show ?case by (simp add: list_eq_iff_nth_eq)
next
  case (2 nbrs core c i stack labels)
  show ?case
  proof (cases "i < length labels \<and> labels ! i = -1")
    case True
    let ?labels = "labels[i := int c]"
    let ?stack = "(if core i then rev (filter (\<lambda>v. v < length ?labels \<and> ?labels ! v = -1) (nbrs i))
                   else []) @ stack"
    have a: "\<forall>j < length ?labels. ?labels ! j = -1 \<or> ?labels ! j = int c"
      using "2.prems"(1) True by (auto simp: nth_list_update)
    have b: "\<forall>j < length ?labels. ?labels ! j = -1 \<longrightarrow> j \<in> set ?stack"
      using "2.prems"(2) True by (auto simp: nth_list_update split: if_splits)
    have "expand nbrs core c ?stack ?labels = replicate (length ?labels) (int c)"
      using "2.IH"(1) [OF True refl a b] .
    with True show ?thesis by (simp add: Let_def)
  next
    case False
    have b: "\<forall>j < length labels. labels ! j = -1 \<longrightarrow> j \<in> set stack"
      using "2.prems"(2) False by auto
    have "expand nbrs core c stack labels = replicate (length labels) (int c)"
      using "2.IH"(2) [OF False "2.prems"(1) b] .
    with False show ?thesis by auto
  qed
qed

lemma expand_from_core:
  assumes "i < n" and "core i" and "nbrs i = [0..<n]"
  shows "expand nbrs core c [i] (replicate n (-1)) = replicate n (int c)"
proof -
  let ?labels = "(replicate n (-1 :: int))[i := int c]"
  let ?stack = "rev (filter (\<lambda>v. v < length ?labels \<and> ?labels ! v = -1) [0..<n]) @ []"
  have a: "\<forall>j < length ?labels. ?labels ! j = -1 \<or> ?labels ! j = int c"
    using assms(1) by (auto simp: nth_list_update)
  have b: "\<forall>j < length ?labels. ?labels ! j = -1 \<longrightarrow> j \<in> set ?stack"
    by simp
  have "expand nbrs core c ?stack ?labels = replicate (length ?labels) (int c)"
    using a b by (rule expand_all_reached)
  then show ?thesis
    using assms by (simp add: Let_def)
qed

lemma sweep_all_labelled:
  "\<forall>i \<in> set todo. labels ! i \<noteq> -1 \<Longrightarrow> sweep nbrs core todo c labels = labels"
  by (induction todo) auto

lemma neighborhood_replicate:
  "i < n \<Longrightarrow> neighborhood eps (replicate n p) i = [0..<n]"
  by (simp add: neighborhood_def in_radius_def dist2_def filter_id_conv)

lemma identical_points_cluster:
  assumes "min_samples \<le> n"
  shows "dbscan eps min_samples (replicate n p) = replicate n 0"
proof (cases n)
  case 0
  then show ?thesis by (simp add: dbscan_def)
next
  case (Suc m)
  let ?nbrs = "neighborhood eps (replicate n p)"
  let ?core = "is_core eps min_samples (replicate n p)"
  have pos: "0 < n"
    using Suc by simp
  have nbrs: "?nbrs 0 = [0..<n]"
    using pos by (rule neighborhood_replicate)
  have core: "?core 0"
    using assms by (simp add: is_core_def nbrs)
  have e: "expand ?nbrs ?core 0 [0] (replicate n (-1)) = replicate n (int 0)"
    using pos core nbrs by (rule expand_from_core)
  have "[0..<n] = 0 # [1..<n]"
    using Suc by (simp add: upt_conv_Cons)
  then have "dbscan eps min_samples (replicate n p) =
             sweep ?nbrs ?core [1..<n] (Suc 0) (replicate n 0)"
    using core e pos by (simp add: dbscan_def)
  also have "\<dots> = replicate n 0"
    by (rule sweep_all_labelled) simp
  finally show ?thesis .
qed

lemma value_counts_groups:
  "value_counts [2, 4, 1, 1, 3, 3] = [({1, 3}, 2), ({2, 4}, 1)]"
  by (auto simp: value_counts_def)

section \<open>The claims\<close>

text \<open>
  C1. In every state the dashboard can reach, and for every filter, the filtered view holds
  exactly the rows of the data set that satisfy all four conditions: pickup time between the
  two dates (both bounds included, full timestamps), passenger count at least the minimum,
  distance between the two bounds (both included, so a row at the upper bound stays and one
  above it goes), and time-of-day bucket among the chosen periods.
\<close>

theorem filter_exact:
  "\<exists>f. filtered (interactions is (startup ds)) s e p [lo, hi] tod = Inr f \<and>
       rows f = filter (\<lambda>r. s \<le> tpep_pickup_datetime r \<and> tpep_pickup_datetime r \<le> e \<and>
                           p \<le> passenger_count r \<and>
                           lo \<le> trip_distance r \<and> trip_distance r \<le> hi \<and>
                           period (hour r) \<in> set tod) ds"
proof -
  have "keeps s e p lo hi tod =
     (\<lambda>r. s \<le> tpep_pickup_datetime r \<and> tpep_pickup_datetime r \<le> e \<and>
           p \<le> passenger_count r \<and> lo \<le> trip_distance r \<and> trip_distance r \<le> hi \<and>
           period (hour r) \<in> set tod)"
    by (rule ext) (simp add: keeps_def)
  then show ?thesis
    using filtered_reachable [of "is" ds s e p lo hi tod] by simp
qed

theorem filter_exact_witness:
  "\<exists>f. filtered (interactions [(0, 1000, 1, [0, 20], [''night''])] (startup [R1, R2, R3]))
          0 1000 2 [0, 19.5] [''morning'', ''evening''] = Inr f \<and> rows f = [R1, R3]"
  using filter_exact [of "[(0, 1000, 1, [0, 20], [''night''])]" "[R1, R2, R3]" 0 1000 2 0 "19.5"
      "[''morning'', ''evening'']"]
  by (simp add: R1_def R2_def R3_def period_def)

text \<open>
  C2. The bucket of a row is a function of its hour alone, the column \<^verbatim>\<open>period\<close> being
  \<open>period\<close> applied to the column \<^verbatim>\<open>hour\<close>; for an hour from 0 to 23 it is morning
  exactly on [6,12), afternoon exactly on [12,18), evening exactly on [18,24) and night
  exactly on [0,6), so every such hour lies in exactly one bucket.
\<close>

theorem period_buckets:
  "(\<exists>f. filtered (interactions is (startup ds)) s e p [lo, hi] tod = Inr f \<and>
        period_col f = Some (map (\<lambda>r. period (hour r)) (rows f))) \<and>
   (0 \<le> h \<and> h < 24 \<longrightarrow>
      (period h = ''morning'' \<longleftrightarrow> 6 \<le> h \<and> h < 12) \<and>
      (period h = ''afternoon'' \<longleftrightarrow> 12 \<le> h \<and> h < 18) \<and>
      (period h = ''evening'' \<longleftrightarrow> 18 \<le> h \<and> h < 24) \<and>
      (period h = ''night'' \<longleftrightarrow> 0 \<le> h \<and> h < 6))"
proof
  show "\<exists>f. filtered (interactions is (startup ds)) s e p [lo, hi] tod = Inr f \<and>
        period_col f = Some (map (\<lambda>r. period (hour r)) (rows f))"
    using filtered_reachable [of "is" ds s e p lo hi tod] by simp
  show "0 \<le> h \<and> h < 24 \<longrightarrow>
      (period h = ''morning'' \<longleftrightarrow> 6 \<le> h \<and> h < 12) \<and>
      (period h = ''afternoon'' \<longleftrightarrow> 12 \<le> h \<and> h < 18) \<and>
      (period h = ''evening'' \<longleftrightarrow> 18 \<le> h \<and> h < 24) \<and>
      (period h = ''night'' \<longleftrightarrow> 0 \<le> h \<and> h < 6)"
    by (simp add: period_def)
qed

theorem period_buckets_witness:
  "(0::int) \<le> 7 \<and> (7::int) < 24 \<and> period 7 = ''morning'' \<and> period 7 \<noteq> ''afternoon'' \<and>
   period 7 \<noteq> ''evening'' \<and> period 7 \<noteq> ''night''"
  using period_buckets [of "[]" "[R1]" 0 1000 1 0 20 "[''morning'']" 7]
  by simp

text \<open>
  C3. For every filter the filtered view is a subsequence of the data set, in the order of
  the data set: nothing is reordered and nothing is duplicated.
\<close>

theorem filter_stable:
  "\<exists>f. filtered (interactions is (startup ds)) s e p [lo, hi] tod = Inr f \<and>
       subseq (rows f) ds"
  using filtered_reachable [of "is" ds s e p lo hi tod] filter_subseq by simp

text \<open>
  C4. After any number of calls of the callback, whatever their inputs and whether or not
  they raise, the global variable still refers to the same frame, that frame is what it was
  after start-up, and so is the cluster label of each of its rows.
\<close>

theorem dataset_unchanged:
  "df (interactions is (startup ds)) = df (startup ds) \<and>
   heap (interactions is (startup ds)) (df (startup ds)) = heap (startup ds) (df (startup ds)) \<and>
   rows (heap (interactions is (startup ds)) (df (startup ds))) = ds \<and>
   map cluster (rows (heap (interactions is (startup ds)) (df (startup ds)))) = map cluster ds"
  using interactions_frame [OF wf_startup, of "is" ds]
  by (simp add: startup_def)

text \<open>
  C10. Two passes over the same data set whose filters differ only in the minimum passenger
  count, \<open>p1 \<le> p2\<close>: every row of the view for \<open>p2\<close> is in the view for \<open>p1\<close>, and in the
  same order.
\<close>

theorem min_passengers_antitone:
  assumes "p1 \<le> p2"
  shows "\<exists>f1 f2. filtered (interactions is1 (startup ds)) s e p1 [lo, hi] tod = Inr f1 \<and>
           filtered (interactions is2 (startup ds)) s e p2 [lo, hi] tod = Inr f2 \<and>
           set (rows f2) \<subseteq> set (rows f1) \<and> subseq (rows f2) (rows f1)"
proof -
  have imp: "keeps s e p2 lo hi tod r \<Longrightarrow> keeps s e p1 lo hi tod r" for r
    using assms by (simp add: keeps_def)
  have "filter (keeps s e p2 lo hi tod) ds =
        filter (keeps s e p2 lo hi tod) (filter (keeps s e p1 lo hi tod) ds)"
    using imp by (induction ds) auto
  then have "subseq (filter (keeps s e p2 lo hi tod) ds) (filter (keeps s e p1 lo hi tod) ds)"
    using filter_subseq [of "keeps s e p2 lo hi tod" "filter (keeps s e p1 lo hi tod) ds"]
    by simp
  moreover have "set (filter (keeps s e p2 lo hi tod) ds) \<subseteq> set (filter (keeps s e p1 lo hi tod) ds)"
    using imp by auto
  ultimately show ?thesis
    using filtered_reachable [of is1 ds s e p1 lo hi tod]
      filtered_reachable [of is2 ds s e p2 lo hi tod] by simp
qed

theorem min_passengers_antitone_witness:
  "(1::int) \<le> 2 \<and>
   (\<exists>f1 f2. filtered (startup [R1, R2, R3]) 0 1000 1 [0, 20] [''morning'', ''afternoon''] = Inr f1 \<and>
      filtered (interactions [(0, 1000, 1, [0, 20], [''morning'', ''afternoon''])]
        (startup [R1, R2, R3])) 0 1000 2 [0, 20] [''morning'', ''afternoon''] = Inr f2 \<and>
      set (rows f2) \<subseteq> set (rows f1) \<and> subseq (rows f2) (rows f1))"
proof -
  have h: "(1::int) \<le> 2" by simp
  show ?thesis
    using h min_passengers_antitone [OF h, of "[]" "[R1, R2, R3]" 0 1000 0 20
        "[''morning'', ''afternoon'']" "[(0, 1000, 1, [0, 20], [''morning'', ''afternoon''])]"]
    by (simp add: interactions_def)
qed

text \<open>
  C5, as the code has it. The callback checks neither range. A filter whose start date lies
  after its end date, here on the three example trips, returns four figures, all empty.
\<close>

theorem nonmonotonic_returns_result:
  "fst (update_dashboard (startup [R1, R2, R3]) 300 100 1 [0, 20]
          [''morning'', ''afternoon'', ''evening'', ''night'']) =
     Inr \<lparr>map_fig = [], time_fig = [], dist_fig = ([], 30), pass_fig = []\<rparr>"
proof -
  have "filter (keeps 300 100 1 0 20 [''morning'', ''afternoon'', ''evening'', ''night''])
          [R1, R2, R3] = []"
    by (simp add: keeps_def R1_def R2_def R3_def)
  then show ?thesis
    using update_dashboard_reachable [of "[]" "[R1, R2, R3]" 300 100 1 0 20
        "[''morning'', ''afternoon'', ''evening'', ''night'']"]
    by (simp add: interactions_def figures_of_Nil empty_figures_def)
qed

text \<open>
  C5, amended. When the start date lies after the end date, or the lower distance bound
  above the upper one, the pass raises nothing: the filtered view is empty and the four
  figures are the empty ones.
\<close>

theorem nonmonotonic_empty:
  assumes "e < s \<or> hi < lo"
  shows "fst (update_dashboard (interactions is (startup ds)) s e p [lo, hi] tod) =
           Inr \<lparr>map_fig = [], time_fig = [], dist_fig = ([], 30), pass_fig = []\<rparr> \<and>
         (\<exists>f. filtered (interactions is (startup ds)) s e p [lo, hi] tod = Inr f \<and> rows f = [])"
proof -
  have "\<not> keeps s e p lo hi tod r" for r
    using assms by (auto simp: keeps_def)
  then have "filter (keeps s e p lo hi tod) ds = []"
    by simp
  then show ?thesis
    by (simp add: update_dashboard_reachable filtered_reachable figures_of_Nil
        empty_figures_def)
qed

theorem nonmonotonic_empty_witness:
  "((100::int) < 0 \<or> (5::real) < 10) \<and>
   fst (update_dashboard (startup [R1, R2, R3]) 0 100 1 [10, 5] [''morning'']) =
     Inr \<lparr>map_fig = [], time_fig = [], dist_fig = ([], 30), pass_fig = []\<rparr>"
proof -
  have h: "(100::int) < 0 \<or> (5::real) < 10" by simp
  show ?thesis
    using h nonmonotonic_empty [OF h, of "[]" "[R1, R2, R3]" 1 "[''morning'']"]
    by (simp add: interactions_def)
qed

text \<open>
  C6. When the conditions of the filter exclude every row, the pass raises nothing and
  returns the four figures of an empty view: no point on the map, no row of hourly counts, a
  histogram over no distance, no row of passenger counts.
\<close>

theorem empty_result_no_error:
  assumes "\<forall>r \<in> set ds. \<not> (s \<le> tpep_pickup_datetime r \<and> tpep_pickup_datetime r \<le> e \<and>
             p \<le> passenger_count r \<and> lo \<le> trip_distance r \<and> trip_distance r \<le> hi \<and>
             period (hour r) \<in> set tod)"
  shows "fst (update_dashboard (interactions is (startup ds)) s e p [lo, hi] tod) =
           Inr \<lparr>map_fig = [], time_fig = [], dist_fig = ([], 30), pass_fig = []\<rparr>"
proof -
  have "filter (keeps s e p lo hi tod) ds = []"
    using assms by (simp add: keeps_def)
  then show ?thesis
    by (simp add: update_dashboard_reachable figures_of_Nil empty_figures_def)
qed

theorem empty_result_no_error_witness:
  "fst (update_dashboard (startup [R1, R2, R3]) 0 1000 5 [0, 20]
          [''morning'', ''afternoon'', ''evening'', ''night'']) =
     Inr \<lparr>map_fig = [], time_fig = [], dist_fig = ([], 30), pass_fig = []\<rparr>"
proof -
  have h: "\<forall>r \<in> set [R1, R2, R3].
      \<not> (0 \<le> tpep_pickup_datetime r \<and> tpep_pickup_datetime r \<le> 1000 \<and>
         5 \<le> passenger_count r \<and> 0 \<le> trip_distance r \<and> trip_distance r \<le> 20 \<and>
         period (hour r) \<in> set [''morning'', ''afternoon'', ''evening'', ''night''])"
    by (simp add: R1_def R2_def R3_def)
  show ?thesis
    using empty_result_no_error [OF h, of "[]"] by (simp add: interactions_def)
qed

text \<open>
  C8. Calling the callback a second time with the same five inputs, in the store the first
  call left, gives the same outcome (the same four figures, or the same exception) and the
  same filtered view as the first call.
\<close>

theorem same_filter_twice:
  "fst (update_dashboard (snd (update_dashboard (interactions is (startup ds)) s e p d tod))
          s e p d tod) =
     fst (update_dashboard (interactions is (startup ds)) s e p d tod) \<and>
   filtered (snd (update_dashboard (interactions is (startup ds)) s e p d tod)) s e p d tod =
     filtered (interactions is (startup ds)) s e p d tod"
proof -
  let ?st = "interactions is (startup ds)"
  let ?st' = "snd (update_dashboard ?st s e p d tod)"
  have w: "wf ?st" using reachable_frame by simp
  have "wf ?st'" "df ?st' = df ?st" "heap ?st' (df ?st) = heap ?st (df ?st)"
    using update_dashboard_frame [OF w, of s e p d tod] by simp_all
  then have "filtered ?st' s e p d tod = filtered ?st s e p d tod"
    using filtered_depends_on_df [of ?st' ?st s e p d tod] w by simp
  then show ?thesis
    by (simp add: update_dashboard_filtered)
qed

text \<open>
  C9. For a pass that filters nothing out (every row within the date range, the passenger
  minimum and the distance range, and all four periods chosen), the counts of the hourly
  figure, put into the four buckets and added up, give the number of rows of the data set.
\<close>

theorem unfiltered_conservation:
  assumes "\<forall>r \<in> set ds. s \<le> tpep_pickup_datetime r \<and> tpep_pickup_datetime r \<le> e \<and>
             p \<le> passenger_count r \<and> lo \<le> trip_distance r \<and> trip_distance r \<le> hi"
    and "{''morning'', ''afternoon'', ''evening'', ''night''} \<subseteq> set tod"
  shows "\<exists>figs. fst (update_dashboard (interactions is (startup ds)) s e p [lo, hi] tod) =
           Inr figs \<and>
         bucket_count (time_fig figs) ''morning'' + bucket_count (time_fig figs) ''afternoon'' +
         bucket_count (time_fig figs) ''evening'' + bucket_count (time_fig figs) ''night'' =
         length ds"
proof -
  have "period (hour r) \<in> set tod" for r :: trip
    using assms(2) period_cases [of "hour r"] by auto
  then have "filter (keeps s e p lo hi tod) ds = ds"
    using assms(1) by (simp add: keeps_def filter_id_conv)
  then have "fst (update_dashboard (interactions is (startup ds)) s e p [lo, hi] tod) =
      Inr (figures_of ds)"
    by (simp add: update_dashboard_reachable)
  moreover have "time_fig (figures_of ds) = groupby_size (map hour ds)"
    by (simp add: figures_of_def)
  ultimately show ?thesis
    using bucket_count_total [of "map hour ds"] by simp
qed

theorem unfiltered_conservation_witness:
  "\<exists>figs. fst (update_dashboard (startup [R1, R2, R3]) 0 1000 0 [0, 20]
             [''morning'', ''afternoon'', ''evening'', ''night'']) = Inr figs \<and>
     time_fig figs = [(7, 1), (14, 1), (20, 1)] \<and>
     bucket_count (time_fig figs) ''morning'' + bucket_count (time_fig figs) ''afternoon'' +
     bucket_count (time_fig figs) ''evening'' + bucket_count (time_fig figs) ''night'' = 3"
proof -
  have h1: "\<forall>r \<in> set [R1, R2, R3]. 0 \<le> tpep_pickup_datetime r \<and>
      tpep_pickup_datetime r \<le> 1000 \<and> 0 \<le> passenger_count r \<and> 0 \<le> trip_distance r \<and>
      trip_distance r \<le> 20"
    by (simp add: R1_def R2_def R3_def)
  have h2: "{''morning'', ''afternoon'', ''evening'', ''night''} \<subseteq>
      set [''morning'', ''afternoon'', ''evening'', ''night'']"
    by simp
  have k: "filter (keeps 0 1000 0 0 20 [''morning'', ''afternoon'', ''evening'', ''night''])
      [R1, R2, R3] = [R1, R2, R3]"
    by (simp add: keeps_def R1_def R2_def R3_def period_def)
  have t: "time_fig (figures_of [R1, R2, R3]) = [(7, 1), (14, 1), (20, 1)]"
    by (simp add: figures_of_def groupby_size_def R1_def R2_def R3_def)
  show ?thesis
    using unfiltered_conservation [OF h1 h2, of "[]"]
      update_dashboard_reachable [of "[]" "[R1, R2, R3]" 0 1000 0 0 20
        "[''morning'', ''afternoon'', ''evening'', ''night'']"] k t
    by (auto simp: interactions_def)
qed

text \<open>
  C7, as the clustering has it. Forty identical points, the \<open>min_samples\<close> of line 37: each
  has all forty within \<open>eps\<close>, each is a core point, and all receive the label 0 of one
  cluster, not the noise label.
\<close>

theorem identical_points_one_cluster:
  "cluster_labels (replicate 40 (0, 0)) = replicate 40 0"
  by code_simp

text \<open>
  C7, amended. With the parameters of line 37: when there are fewer than 40 points (identical
  or not), or when every two points lie at a Euclidean distance above 0.15, every point
  receives the label \<open>-1\<close>, and the clustering returns these labels.  Identical points
  alone do not give noise: when 40 or more points are all identical, every point receives
  the label 0 of one single cluster.
\<close>

theorem degenerate_all_noise:
  "(length scaled < 40 \<or>
    (\<forall>i < length scaled. \<forall>j < length scaled. i \<noteq> j \<longrightarrow>
       0.15 < sqrt (dist2 (scaled ! i) (scaled ! j)))
    \<longrightarrow> cluster_labels scaled = replicate (length scaled) (-1)) \<and>
   (40 \<le> n \<longrightarrow> cluster_labels (replicate n p) = replicate n 0)"
proof (intro conjI impI)
  assume degenerate: "length scaled < 40 \<or>
           (\<forall>i < length scaled. \<forall>j < length scaled. i \<noteq> j \<longrightarrow>
              0.15 < sqrt (dist2 (scaled ! i) (scaled ! j)))"
  have "\<not> is_core 0.15 40 scaled i" if "i < length scaled" for i
    using degenerate
  proof
    assume "length scaled < 40"
    then show ?thesis by (rule few_points_no_core)
  next
    assume far: "\<forall>i < length scaled. \<forall>j < length scaled. i \<noteq> j \<longrightarrow>
              0.15 < sqrt (dist2 (scaled ! i) (scaled ! j))"
    have "\<forall>j < length scaled. j \<noteq> i \<longrightarrow> \<not> in_radius 0.15 (scaled ! i) (scaled ! j)"
    proof (intro allI impI)
      fix j
      assume j: "j < length scaled" "j \<noteq> i"
      have "i \<noteq> j" using j(2) by simp
      then have "0.15 < sqrt (dist2 (scaled ! i) (scaled ! j))"
        using far that j(1) by blast
      then have "\<not> sqrt (dist2 (scaled ! i) (scaled ! j)) \<le> 0.15"
        by (simp only: not_le)
      then show "\<not> in_radius 0.15 (scaled ! i) (scaled ! j)"
        using in_radius_sqrt [of "0.15" "scaled ! i" "scaled ! j"] by simp
    qed
    then show ?thesis
      by (intro isolated_no_core) simp_all
  qed
  then show "cluster_labels scaled = replicate (length scaled) (-1)"
    unfolding cluster_labels_def by (intro dbscan_no_core) simp
next
  assume "40 \<le> n"
  then show "cluster_labels (replicate n p) = replicate n 0"
    unfolding cluster_labels_def by (rule identical_points_cluster)
qed

theorem degenerate_all_noise_witness:
  "cluster_labels [(0, 0), (0, 0), (1, 1)] = [-1, -1, -1] \<and>
   length (map (\<lambda>k. (real k, 0 :: real)) [0..<41]) = 41 \<and>
   cluster_labels (map (\<lambda>k. (real k, 0)) [0..<41]) = replicate 41 (-1) \<and>
   cluster_labels (replicate 41 (1, 2)) = replicate 41 0"
proof -
  let ?few = "[(0::real, 0::real), (0, 0), (1, 1)]"
  let ?far = "map (\<lambda>k. (real k, 0 :: real)) [0..<41]"
  have few: "length ?few < 40"
    by simp
  have far: "\<forall>i < length ?far. \<forall>j < length ?far. i \<noteq> j \<longrightarrow>
               0.15 < sqrt (dist2 (?far ! i) (?far ! j))"
  proof (intro allI impI)
    fix i j :: nat
    assume ij: "i < length ?far" "j < length ?far" "i \<noteq> j"
    have "dist2 (?far ! i) (?far ! j) = (real i - real j)\<^sup>2"
      using ij by (simp add: dist2_def)
    then have "sqrt (dist2 (?far ! i) (?far ! j)) = \<bar>real i - real j\<bar>"
      by simp
    moreover have "1 \<le> \<bar>real i - real j\<bar>"
      using ij(3) by (cases "i < j") simp_all
    ultimately show "0.15 < sqrt (dist2 (?far ! i) (?far ! j))"
      by simp
  qed
  have many: "40 \<le> (41 :: nat)"
    by simp
  show ?thesis
    using degenerate_all_noise [of ?few 41 "(1, 2)"] degenerate_all_noise [of ?far 41 "(1, 2)"]
      few far many
    by (simp add: numeral_3_eq_3)
qed

end
